theory Spec2Isabelle
  imports Main "HOL-Library.AList" "HOL-Library.Word"
begin

section \<open>Data model\<close>

text \<open>
  The backend keeps one \<open>PDFManager\<close> (\<open>backend/pdf_processor.py\<close>) whose four
  attributes are three Python dictionaries keyed by the PDF id and the combined vector
  store, which is \<open>None\<close> until a first store is assigned.  A Python dictionary keeps its
  keys in insertion order, assigning to a present key keeps the key's position and
  \<open>del\<close> drops the entry: this is an association list with \<open>AList.update\<close>,
  \<open>AList.delete\<close> and \<open>map_of\<close>.  The order matters, since the combined store is built
  from the segments in the iteration order of \<open>self.documents\<close>.
\<close>

type_synonym bytes = "8 word list"

text \<open>A langchain \<open>Document\<close>: the text and its metadata dictionary.\<close>

record document =
  page_content :: string
  metadata :: "(string \<times> string) list"

text \<open>
  A FAISS vector store is used here only as the index over the documents it was built
  from; the code never adds to or deletes from a store after building it.
\<close>

datatype vectorstore = FAISS (docstore: "document list")

datatype error = KeyError string | Exception string

record PDFManager =
  vectorstores :: "(string \<times> vectorstore) list"
  pdf_names :: "(string \<times> string) list"
  documents :: "(string \<times> document list) list"
  combined_vectorstore :: "vectorstore option"

subsection \<open>The libraries the code calls\<close>

text \<open>
  The code calls into libraries that are not part of the repository.  What they compute
  is a parameter of the model:
  \<^item> \<open>loader_load\<close>: writing the bytes to a temporary file and \<open>PyPDFLoader(tmp_path).load()\<close>,
    the pages of the PDF or the exception raised;
  \<^item> \<open>split_text\<close>: \<open>RecursiveCharacterTextSplitter(chunk_size, chunk_overlap).split_text\<close>;
  \<^item> \<open>embed_failure\<close>: the exception, if any, that embedding a list of documents and
    building a FAISS index from them raises;
  \<^item> \<open>retrieve\<close>: \<open>vectorstore.as_retriever(search_kwargs={"k": k}).invoke(query)\<close>, the
    \<open>k\<close> nearest documents or the exception raised;
  \<^item> \<open>render\<close>: the text Python puts in the prompt for the list of retrieved documents.
\<close>

record env =
  loader_load :: "bytes \<Rightarrow> error + document list"
  split_text :: "nat \<Rightarrow> nat \<Rightarrow> string \<Rightarrow> string list"
  embed_failure :: "document list \<Rightarrow> error option"
  retrieve :: "vectorstore \<Rightarrow> nat \<Rightarrow> string \<Rightarrow> error + document list"
  render :: "document list \<Rightarrow> string"

text \<open>
  \<open>TextSplitter.split_documents\<close>: every page's text is cut by \<open>split_text\<close>, and every
  chunk becomes a document carrying a copy of its page's metadata.
\<close>

definition split_documents :: "env \<Rightarrow> nat \<Rightarrow> nat \<Rightarrow> document list \<Rightarrow> document list" where
  "split_documents env chunk_size chunk_overlap pages =
     concat (map (\<lambda>page.
        map (\<lambda>chunk. \<lparr>page_content = chunk, metadata = metadata page\<rparr>)
          (split_text env chunk_size chunk_overlap (page_content page))) pages)"

text \<open>\<open>FAISS.from_documents(docs, self.embeddings)\<close>: the index over \<open>docs\<close>, unless it raises.\<close>

definition from_documents :: "env \<Rightarrow> document list \<Rightarrow> error + vectorstore" where
  "from_documents env docs =
     (case embed_failure env docs of Some e \<Rightarrow> Inl e | None \<Rightarrow> Inr (FAISS docs))"

section \<open>PDFManager\<close>

text \<open>\<open>PDFManager.__init__\<close>\<close>

definition init :: PDFManager where
  "init = \<lparr>vectorstores = [], pdf_names = [], documents = [], combined_vectorstore = None\<rparr>"

text \<open>
  Every method returns its result, or the exception it raises, together with the manager
  as the method leaves it: an exception does not undo the assignments made before it.
\<close>

text \<open>\<open>PDFManager._update_combined_vectorstore\<close>\<close>

definition update_combined_vectorstore :: "env \<Rightarrow> PDFManager \<Rightarrow> (error + unit) \<times> PDFManager" where
  "update_combined_vectorstore env s =
     (if vectorstores s = [] then (Inr (), s)
      else if length (vectorstores s) = 1 then
        (let pdf_id = fst (hd (vectorstores s))
         in (Inr (), s\<lparr>combined_vectorstore := map_of (vectorstores s) pdf_id\<rparr>))
      else
        (let all_docs = concat (map snd (documents s))
         in case from_documents env all_docs of
              Inl e \<Rightarrow> (Inl e, s)
            | Inr combined \<Rightarrow> (Inr (), s\<lparr>combined_vectorstore := Some combined\<rparr>)))"

text \<open>The loop of \<open>process_pdf\<close> over the pages: \<open>source\<close> first, then \<open>pdf_id\<close>.\<close>

definition stamp :: "string \<Rightarrow> string \<Rightarrow> document \<Rightarrow> document" where
  "stamp file_name pdf_id page =
     page\<lparr>metadata := AList.update ''pdf_id'' pdf_id
                        (AList.update ''source'' file_name (metadata page))\<rparr>"

text \<open>
  \<open>PDFManager.process_pdf\<close>.  The argument \<open>pdf_id\<close> is the value \<open>str(uuid.uuid4())\<close>
  takes in this call.  The \<open>except\<close> clause logs and raises again, and the \<open>finally\<close>
  clause only deletes the temporary file.
\<close>

definition process_pdf ::
  "env \<Rightarrow> PDFManager \<Rightarrow> string \<Rightarrow> bytes \<Rightarrow> string \<Rightarrow> (error + string) \<times> PDFManager" where
  "process_pdf env s pdf_id file_content file_name =
     (case loader_load env file_content of
        Inl e \<Rightarrow> (Inl e, s)
      | Inr pages \<Rightarrow>
          (let splits = split_documents env 1000 200 (map (stamp file_name pdf_id) pages);
               s1 = s\<lparr>documents := AList.update pdf_id splits (documents s)\<rparr>
           in case from_documents env splits of
                Inl e \<Rightarrow> (Inl e, s1)
              | Inr vectorstore \<Rightarrow>
                  (let s2 = s1\<lparr>vectorstores := AList.update pdf_id vectorstore (vectorstores s1),
                               pdf_names := AList.update pdf_id file_name (pdf_names s1)\<rparr>
                   in case update_combined_vectorstore env s2 of
                        (Inl e, s3) \<Rightarrow> (Inl e, s3)
                      | (Inr u, s3) \<Rightarrow> (Inr pdf_id, s3))))"

text \<open>\<open>PDFManager.get_combined_vectorstore\<close>, \<open>get_pdf_name\<close> and \<open>list_pdfs\<close>\<close>

definition get_combined_vectorstore :: "PDFManager \<Rightarrow> vectorstore option" where
  "get_combined_vectorstore s = combined_vectorstore s"

definition get_pdf_name :: "PDFManager \<Rightarrow> string \<Rightarrow> string option" where
  "get_pdf_name s pdf_id = map_of (pdf_names s) pdf_id"

definition list_pdfs :: "PDFManager \<Rightarrow> (string \<times> string) list" where
  "list_pdfs s = pdf_names s"

text \<open>
  \<open>PDFManager.remove_pdf\<close>.  \<open>del self.pdf_names[pdf_id]\<close> raises \<open>KeyError\<close> on a missing
  key, with the entry of \<open>vectorstores\<close> already deleted.
\<close>

definition remove_pdf :: "env \<Rightarrow> PDFManager \<Rightarrow> string \<Rightarrow> (error + bool) \<times> PDFManager" where
  "remove_pdf env s pdf_id =
     (if pdf_id \<in> fst ` set (vectorstores s) then
        (let s1 = s\<lparr>vectorstores := AList.delete pdf_id (vectorstores s)\<rparr>
         in if pdf_id \<notin> fst ` set (pdf_names s1) then (Inl (KeyError pdf_id), s1)
            else
              (let s2 = s1\<lparr>pdf_names := AList.delete pdf_id (pdf_names s1)\<rparr>;
                   s3 = (if pdf_id \<in> fst ` set (documents s2)
                         then s2\<lparr>documents := AList.delete pdf_id (documents s2)\<rparr>
                         else s2)
               in case update_combined_vectorstore env s3 of
                    (Inl e, s4) \<Rightarrow> (Inl e, s4)
                  | (Inr u, s4) \<Rightarrow> (Inr True, s4)))
      else (Inr False, s))"

section \<open>Answering a query\<close>

text \<open>
  \<open>get_response\<close> of \<open>backend/llm_service.py\<close>.  The language model is the argument
  \<open>llm\<close>: from the prompt to the text of its answer (which \<open>StrOutputParser\<close> extracts),
  or the exception it raises.  Next to its result the model returns the calls made to
  the retriever and to the language model, in order.
\<close>

datatype call = is_Retrieve: Retrieve vectorstore nat string | is_Generate: Generate string

definition no_pdfs_message :: string where
  "no_pdfs_message = ''No PDFs have been uploaded yet. Please upload at least one PDF first.''"

definition prompt_format :: "env \<Rightarrow> document list \<Rightarrow> string \<Rightarrow> string" where
  "prompt_format env context question =
     ''\<newline>        Answer the question properly based on the following context from PDF documents.\<newline>'' @
     ''        \<newline>'' @
     ''        For each piece of information you use in your answer, mention which PDF document it came from.\<newline>'' @
     ''        If the information needed to answer the question is not present in any of the PDF documents, \<newline>'' @
     ''        clearly state that the information is not present in the uploaded PDFs.\<newline>'' @
     ''        \<newline>'' @
     ''        Context: '' @ render env context @ ''\<newline>'' @
     ''        Question: '' @ question @ ''\<newline>'' @
     ''        \<newline>'' @
     ''        Answer: \<newline>'' @
     ''        ''"

definition get_response ::
  "env \<Rightarrow> (string \<Rightarrow> error + string) \<Rightarrow> PDFManager \<Rightarrow> string \<Rightarrow> (error + string) \<times> call list" where
  "get_response env llm s query =
     (case get_combined_vectorstore s of
        None \<Rightarrow> (Inr no_pdfs_message, [])
      | Some vectorstore \<Rightarrow>
          (case retrieve env vectorstore 5 query of
             Inl e \<Rightarrow> (Inl e, [Retrieve vectorstore 5 query])
           | Inr context \<Rightarrow>
               (let prompt = prompt_format env context query
                in case llm prompt of
                     Inl e \<Rightarrow> (Inl e, [Retrieve vectorstore 5 query, Generate prompt])
                   | Inr response \<Rightarrow>
                       (Inr response, [Retrieve vectorstore 5 query, Generate prompt]))))"

section \<open>The states the manager can be in\<close>

text \<open>
  The manager starts as \<open>init\<close> and changes only through \<open>process_pdf\<close> and
  \<open>remove_pdf\<close>, whatever the libraries do in each call and whether or not the call
  raises.
\<close>

inductive reachable :: "PDFManager \<Rightarrow> bool" where
  reachable_init: "reachable init"
| reachable_process:
    "reachable s \<Longrightarrow> process_pdf env s pdf_id file_content file_name = (r, s') \<Longrightarrow> reachable s'"
| reachable_remove:
    "reachable s \<Longrightarrow> remove_pdf env s pdf_id = (r, s') \<Longrightarrow> reachable s'"

section \<open>Properties of the manager\<close>

text \<open>
  What holds of the manager in every state it can be in: no dictionary has a key twice,
  \<open>vectorstores\<close> and \<open>pdf_names\<close> have the same keys in the same order, every such
  key is a key of \<open>documents\<close>, and a single registered PDF's own store is the combined
  one.
\<close>

definition manager_inv :: "PDFManager \<Rightarrow> bool" where
  "manager_inv s \<longleftrightarrow>
     distinct (map fst (vectorstores s)) \<and>
     distinct (map fst (documents s)) \<and>
     map fst (pdf_names s) = map fst (vectorstores s) \<and>
     fst ` set (vectorstores s) \<subseteq> fst ` set (documents s) \<and>
     (length (vectorstores s) = 1 \<longrightarrow>
        combined_vectorstore s = Some (snd (hd (vectorstores s))))"

text \<open>The three dictionaries have the same key set.\<close>

definition keys_agree :: "PDFManager \<Rightarrow> bool" where
  "keys_agree s \<longleftrightarrow>
     fst ` set (vectorstores s) = fst ` set (pdf_names s) \<and>
     fst ` set (pdf_names s) = fst ` set (documents s)"

text \<open>
  The segments the combined store indexes, and the segments of the registered PDFs (the
  ids of \<open>vectorstores\<close>, which are those \<open>list_pdfs\<close> shows and \<open>remove_pdf\<close> accepts).
\<close>

definition merged_segments :: "PDFManager \<Rightarrow> document set" where
  "merged_segments s = (case combined_vectorstore s of None \<Rightarrow> {} | Some v \<Rightarrow> set (docstore v))"

definition registered_segments :: "PDFManager \<Rightarrow> document set" where
  "registered_segments s =
     set (concat (map snd (filter (\<lambda>entry. fst entry \<in> fst ` set (vectorstores s)) (documents s))))"

text \<open>
  The states reached from \<open>init\<close> by calls of \<open>process_pdf\<close> and \<open>remove_pdf\<close> that all
  returned, and what holds of them: \<open>documents\<close> has, id by id and in the same order, the
  segments that the PDF's own store indexes, and as soon as a PDF is registered the
  combined store is the one that \<open>_update_combined_vectorstore\<close> builds.
\<close>

inductive completed_run :: "PDFManager \<Rightarrow> bool" where
  completed_init: "completed_run init"
| completed_process:
    "completed_run s \<Longrightarrow> process_pdf env s pdf_id file_content file_name = (Inr r, s') \<Longrightarrow>
       completed_run s'"
| completed_remove:
    "completed_run s \<Longrightarrow> remove_pdf env s pdf_id = (Inr b, s') \<Longrightarrow> completed_run s'"

definition index_inv :: "PDFManager \<Rightarrow> bool" where
  "index_inv s \<longleftrightarrow>
     documents s = AList.map_ran (\<lambda>k. docstore) (vectorstores s) \<and>
     map fst (pdf_names s) = map fst (vectorstores s) \<and>
     (vectorstores s \<noteq> [] \<longrightarrow>
        combined_vectorstore s =
          Some (if length (vectorstores s) = 1 then snd (hd (vectorstores s))
                else FAISS (concat (map snd (documents s)))))"

section \<open>A concrete run\<close>

text \<open>
  Libraries to evaluate the model with.  The loader rejects an empty file, reads the
  one-byte file \<open>[1]\<close> as a PDF with one page without text (a scanned page), and any
  other file as one page with the text \<open>abc\<close>.  The splitter returns no chunk for an
  empty text and the first \<open>chunk_size\<close> characters otherwise.  Building an index fails on
  an empty list of documents, as \<open>FAISS.from_documents([], embeddings)\<close> does, and the
  retriever returns the first \<open>k\<close> documents of the store.
\<close>

definition env0 :: env where
  "env0 = \<lparr>loader_load = (\<lambda>file_content.
              if file_content = [] then Inl (Exception ''EOF marker not found'')
              else if file_content = [1] then Inr [\<lparr>page_content = [], metadata = [(''page'', ''0'')]\<rparr>]
              else Inr [\<lparr>page_content = ''abc'', metadata = [(''page'', ''0'')]\<rparr>]),
            split_text = (\<lambda>chunk_size chunk_overlap text. if text = [] then [] else [take chunk_size text]),
            embed_failure = (\<lambda>docs. if docs = [] then Some (Exception ''list index out of range'') else None),
            retrieve = (\<lambda>vectorstore k query. Inr (take k (docstore vectorstore))),
            render = (\<lambda>docs. concat (map page_content docs))\<rparr>"

definition llm0 :: "string \<Rightarrow> error + string" where
  "llm0 prompt = Inr ''abc is the answer''"

definition llm_down :: "string \<Rightarrow> error + string" where
  "llm_down prompt = Inl (Exception ''rate limit reached'')"

definition page_abc :: document where
  "page_abc = \<lparr>page_content = ''abc'', metadata = [(''page'', ''0'')]\<rparr>"

definition segment_abc :: "string \<Rightarrow> string \<Rightarrow> document" where
  "segment_abc file_name pdf_id =
     \<lparr>page_content = ''abc'',
      metadata = [(''page'', ''0''), (''source'', file_name), (''pdf_id'', pdf_id)]\<rparr>"

text \<open>The states the runs below go through.\<close>

definition state_a :: PDFManager where
  "state_a = \<lparr>vectorstores = [(''a'', FAISS [segment_abc ''a.pdf'' ''a''])],
              pdf_names = [(''a'', ''a.pdf'')],
              documents = [(''a'', [segment_abc ''a.pdf'' ''a''])],
              combined_vectorstore = Some (FAISS [segment_abc ''a.pdf'' ''a''])\<rparr>"

definition state_ab :: PDFManager where
  "state_ab = \<lparr>vectorstores = [(''a'', FAISS [segment_abc ''a.pdf'' ''a'']), (''b'', FAISS [segment_abc ''b.pdf'' ''b''])],
              pdf_names = [(''a'', ''a.pdf''), (''b'', ''b.pdf'')],
              documents = [(''a'', [segment_abc ''a.pdf'' ''a'']), (''b'', [segment_abc ''b.pdf'' ''b''])],
              combined_vectorstore = Some (FAISS [segment_abc ''a.pdf'' ''a'', segment_abc ''b.pdf'' ''b''])\<rparr>"

definition state_b :: PDFManager where
  "state_b = \<lparr>vectorstores = [(''b'', FAISS [segment_abc ''b.pdf'' ''b''])],
              pdf_names = [(''b'', ''b.pdf'')],
              documents = [(''b'', [segment_abc ''b.pdf'' ''b''])],
              combined_vectorstore = Some (FAISS [segment_abc ''b.pdf'' ''b''])\<rparr>"

definition state_abc :: PDFManager where
  "state_abc = \<lparr>vectorstores = [(''a'', FAISS [segment_abc ''a.pdf'' ''a'']), (''b'', FAISS [segment_abc ''b.pdf'' ''b'']),
                                (''c'', FAISS [segment_abc ''c.pdf'' ''c''])],
              pdf_names = [(''a'', ''a.pdf''), (''b'', ''b.pdf''), (''c'', ''c.pdf'')],
              documents = [(''a'', [segment_abc ''a.pdf'' ''a'']), (''b'', [segment_abc ''b.pdf'' ''b'']),
                           (''c'', [segment_abc ''c.pdf'' ''c''])],
              combined_vectorstore =
                Some (FAISS [segment_abc ''a.pdf'' ''a'', segment_abc ''b.pdf'' ''b'', segment_abc ''c.pdf'' ''c''])\<rparr>"


definition state_gone :: PDFManager where
  "state_gone = \<lparr>vectorstores = [], pdf_names = [], documents = [],
                 combined_vectorstore = Some (FAISS [segment_abc ''a.pdf'' ''a''])\<rparr>"

definition state_orphan :: PDFManager where
  "state_orphan = \<lparr>vectorstores = [], pdf_names = [], documents = [(''a'', [])],
                   combined_vectorstore = None\<rparr>"

definition state_orphan_b :: PDFManager where
  "state_orphan_b = \<lparr>vectorstores = [(''b'', FAISS [segment_abc ''b.pdf'' ''b''])],
              pdf_names = [(''b'', ''b.pdf'')],
              documents = [(''a'', []), (''b'', [segment_abc ''b.pdf'' ''b''])],
              combined_vectorstore = Some (FAISS [segment_abc ''b.pdf'' ''b''])\<rparr>"

text \<open>
  Libraries for which building an index over two or more documents fails, and the state
  in which they leave the second ingestion.
\<close>

definition env_small :: env where
  "env_small = env0\<lparr>embed_failure :=
     (\<lambda>docs. if 2 \<le> length docs then Some (Exception ''out of memory'') else None)\<rparr>"

definition state_ab_stale :: PDFManager where
  "state_ab_stale = state_ab\<lparr>combined_vectorstore := Some (FAISS [segment_abc ''a.pdf'' ''a''])\<rparr>"





section \<open>What the methods change\<close>

lemma ucv_fields:
  "update_combined_vectorstore env s = (r, s') \<Longrightarrow>
     vectorstores s' = vectorstores s \<and> pdf_names s' = pdf_names s \<and> documents s' = documents s"
  by (auto simp: update_combined_vectorstore_def from_documents_def Let_def
           split: if_splits option.splits sum.splits)

lemma ucv_raise:
  "update_combined_vectorstore env s = (Inl e, s') \<Longrightarrow>
     s' = s \<and> 2 \<le> length (vectorstores s) \<and> embed_failure env (concat (map snd (documents s))) = Some e"
proof -
  assume a: "update_combined_vectorstore env s = (Inl e, s')"
  then have ne: "vectorstores s \<noteq> []" and n1: "length (vectorstores s) \<noteq> 1"
    by (auto simp: update_combined_vectorstore_def Let_def split: if_splits)
  from ne n1 have "2 \<le> length (vectorstores s)"
    by (cases "vectorstores s") (auto simp: Suc_le_eq)
  moreover from a ne n1 have "s' = s \<and> embed_failure env (concat (map snd (documents s))) = Some e"
    by (auto simp: update_combined_vectorstore_def from_documents_def Let_def
             split: option.splits)
  ultimately show ?thesis by simp
qed

lemma ucv_single:
  "update_combined_vectorstore env s = (r, s') \<Longrightarrow> length (vectorstores s) = 1 \<Longrightarrow>
     combined_vectorstore s' = Some (snd (hd (vectorstores s)))"
  by (cases "vectorstores s")
     (auto simp: update_combined_vectorstore_def Let_def split: if_splits)

lemma ucv_many:
  "update_combined_vectorstore env s = (Inr u, s') \<Longrightarrow> 2 \<le> length (vectorstores s) \<Longrightarrow>
     combined_vectorstore s' = Some (FAISS (concat (map snd (documents s))))"
  by (cases "vectorstores s")
     (auto simp: update_combined_vectorstore_def from_documents_def Let_def
           split: if_splits option.splits sum.splits)

lemma ucv_empty:
  "vectorstores s = [] \<Longrightarrow> update_combined_vectorstore env s = (Inr (), s)"
  by (simp add: update_combined_vectorstore_def)

lemma keys_delete: "fst ` set (AList.delete k al) = fst ` set al - {k}"
proof -
  have "set (map fst (AList.delete k al)) = set (map fst al) - {k}"
    by (simp only: delete_keys set_removeAll)
  then show ?thesis by simp
qed

lemma process_pdf_fields:
  assumes "loader_load env file_content = Inr pages"
  shows "documents (snd (process_pdf env s pdf_id file_content file_name)) =
           AList.update pdf_id (split_documents env 1000 200 (map (stamp file_name pdf_id) pages))
             (documents s)"
  using assms
  by (auto simp: process_pdf_def Let_def split: sum.splits prod.splits dest: ucv_fields)

lemma process_pdf_success:
  assumes "process_pdf env s pdf_id file_content file_name = (Inr r, s')"
  shows "\<exists>pages. loader_load env file_content = Inr pages \<and> r = pdf_id \<and>
           documents s' = AList.update pdf_id
              (split_documents env 1000 200 (map (stamp file_name pdf_id) pages)) (documents s) \<and>
           vectorstores s' = AList.update pdf_id
              (FAISS (split_documents env 1000 200 (map (stamp file_name pdf_id) pages))) (vectorstores s) \<and>
           pdf_names s' = AList.update pdf_id file_name (pdf_names s)"
  using assms
  by (auto simp: process_pdf_def Let_def from_documents_def
           split: sum.splits prod.splits option.splits dest: ucv_fields)

lemma remove_pdf_known:
  assumes "pdf_id \<in> fst ` set (vectorstores s)" and "pdf_id \<in> fst ` set (pdf_names s)"
  shows "\<exists>u. update_combined_vectorstore env
            (s\<lparr>vectorstores := AList.delete pdf_id (vectorstores s),
               pdf_names := AList.delete pdf_id (pdf_names s),
               documents := AList.delete pdf_id (documents s)\<rparr>) = (u, snd (remove_pdf env s pdf_id)) \<and>
          fst (remove_pdf env s pdf_id) = (case u of Inl e \<Rightarrow> Inl e | Inr x \<Rightarrow> Inr True)"
proof -
  have same: "pdf_id \<notin> fst ` set (documents s) \<Longrightarrow> AList.delete pdf_id (documents s) = documents s"
    by simp
  show ?thesis
    using assms
    by (cases "pdf_id \<in> fst ` set (documents s)")
       (auto simp: remove_pdf_def Let_def same split: sum.splits prod.splits)
qed

lemma process_pdf_raises_cases:
  assumes "process_pdf env s pdf_id file_content file_name = (Inl e, s')"
  shows "(loader_load env file_content = Inl e \<and> s' = s) \<or>
          (\<exists>pages. loader_load env file_content = Inr pages \<and>
             embed_failure env (split_documents env 1000 200 (map (stamp file_name pdf_id) pages)) = Some e \<and>
             s' = s\<lparr>documents := AList.update pdf_id
               (split_documents env 1000 200 (map (stamp file_name pdf_id) pages)) (documents s)\<rparr>) \<or>
          (\<exists>pages. loader_load env file_content = Inr pages \<and>
             embed_failure env (split_documents env 1000 200 (map (stamp file_name pdf_id) pages)) = None \<and>
             s' = s\<lparr>documents := AList.update pdf_id
                       (split_documents env 1000 200 (map (stamp file_name pdf_id) pages)) (documents s),
                     vectorstores := AList.update pdf_id
                       (FAISS (split_documents env 1000 200 (map (stamp file_name pdf_id) pages)))
                       (vectorstores s),
                     pdf_names := AList.update pdf_id file_name (pdf_names s)\<rparr> \<and>
             2 \<le> length (vectorstores s') \<and>
             embed_failure env (concat (map snd (documents s'))) = Some e)"
proof (cases "loader_load env file_content")
  case (Inl e')
  with assms show ?thesis by (simp add: process_pdf_def)
next
  case (Inr pages)
  define splits where "splits = split_documents env 1000 200 (map (stamp file_name pdf_id) pages)"
  show ?thesis
  proof (cases "embed_failure env splits")
    case (Some e')
    with Inr assms show ?thesis
      by (auto simp: process_pdf_def Let_def from_documents_def splits_def[symmetric])
  next
    case None
    define s2 where "s2 = s\<lparr>documents := AList.update pdf_id splits (documents s),
                             vectorstores := AList.update pdf_id (FAISS splits) (vectorstores s),
                             pdf_names := AList.update pdf_id file_name (pdf_names s)\<rparr>"
    from Inr None assms have u: "update_combined_vectorstore env s2 = (Inl e, s')"
      by (auto simp: process_pdf_def Let_def from_documents_def splits_def[symmetric] s2_def
               split: prod.splits sum.splits)
    from ucv_raise[OF u] have "s' = s2" "2 \<le> length (vectorstores s2)"
      "embed_failure env (concat (map snd (documents s2))) = Some e" by simp_all
    with Inr None show ?thesis
      by (simp add: s2_def splits_def[symmetric])
  qed
qed

lemma get_response_no_index:
  "combined_vectorstore s = None \<Longrightarrow> get_response env llm s query = (Inr no_pdfs_message, [])"
  by (simp add: get_response_def get_combined_vectorstore_def)

lemma split_documents_content:
  "map page_content (split_documents env n m (map (stamp file_name pdf_id) pages)) =
     concat (map (\<lambda>page. split_text env n m (page_content page)) pages)"
  by (induction pages) (simp_all add: split_documents_def stamp_def comp_def)

lemma split_documents_rest:
  "map (\<lambda>seg. AList.delete ''pdf_id'' (metadata seg))
       (split_documents env n m (map (stamp file_name pdf_id) pages)) =
     concat (map (\<lambda>page. map (\<lambda>chunk. AList.delete ''pdf_id''
                    (AList.update ''source'' file_name (metadata page)))
                  (split_text env n m (page_content page))) pages)"
  by (induction pages) (simp_all add: split_documents_def stamp_def comp_def delete_update_same)

lemma split_documents_stamped:
  assumes "seg \<in> set (split_documents env n m (map (stamp file_name pdf_id) pages))"
  shows "map_of (metadata seg) ''source'' = Some file_name \<and>
         map_of (metadata seg) ''pdf_id'' = Some pdf_id \<and>
         (\<exists>page \<in> set pages. page_content seg \<in> set (split_text env n m (page_content page)))"
  using assms by (auto simp: split_documents_def stamp_def update_conv')

section \<open>The invariant of the manager\<close>

lemma manager_inv_init: "manager_inv init"
  by (simp add: manager_inv_def init_def)

lemma ucv_inv:
  assumes "update_combined_vectorstore env s = (r, s')"
    and "distinct (map fst (vectorstores s))" "distinct (map fst (documents s))"
    and "map fst (pdf_names s) = map fst (vectorstores s)"
    and "fst ` set (vectorstores s) \<subseteq> fst ` set (documents s)"
  shows "manager_inv s'"
  using assms ucv_fields[OF assms(1)] ucv_single[OF assms(1)]
  by (simp add: manager_inv_def)

lemma process_pdf_inv:
  assumes "manager_inv s" and "process_pdf env s pdf_id file_content file_name = (r, s')"
  shows "manager_inv s'"
proof (cases "loader_load env file_content")
  case (Inl e)
  with assms show ?thesis by (simp add: process_pdf_def)
next
  case (Inr pages)
  define splits where "splits = split_documents env 1000 200 (map (stamp file_name pdf_id) pages)"
  define s1 where "s1 = s\<lparr>documents := AList.update pdf_id splits (documents s)\<rparr>"
  have inv1: "manager_inv s1"
    using assms(1) by (auto simp: manager_inv_def s1_def distinct_update dom_update)
  show ?thesis
  proof (cases "from_documents env splits")
    case (Inl e)
    with Inr assms(2) have "s' = s1"
      by (simp add: process_pdf_def Let_def splits_def s1_def)
    with inv1 show ?thesis by simp
  next
    case fd: (Inr vectorstore)
    define s2 where "s2 = s1\<lparr>vectorstores := AList.update pdf_id vectorstore (vectorstores s1),
                               pdf_names := AList.update pdf_id file_name (pdf_names s1)\<rparr>"
    obtain r2 where u: "update_combined_vectorstore env s2 = (r2, s')"
      using Inr fd assms(2)
      by (auto simp: process_pdf_def Let_def splits_def s1_def s2_def split: prod.splits sum.splits)
    have keys: "map fst (pdf_names s2) = map fst (vectorstores s2)"
      using inv1 by (simp add: manager_inv_def s2_def update_keys)
    have "fst ` set (vectorstores s2) \<subseteq> fst ` set (documents s2)"
      using inv1 by (auto simp: manager_inv_def s2_def s1_def dom_update)
    moreover have "distinct (map fst (vectorstores s2))" "distinct (map fst (documents s2))"
      using inv1 by (simp_all add: manager_inv_def s2_def distinct_update)
    ultimately show ?thesis using ucv_inv[OF u] keys by simp
  qed
qed

lemma remove_pdf_inv:
  assumes "manager_inv s" and "remove_pdf env s pdf_id = (r, s')"
  shows "manager_inv s'"
proof (cases "pdf_id \<in> fst ` set (vectorstores s)")
  case False
  with assms show ?thesis by (simp add: remove_pdf_def)
next
  case True
  define s3 where "s3 = s\<lparr>vectorstores := AList.delete pdf_id (vectorstores s),
                          pdf_names := AList.delete pdf_id (pdf_names s),
                          documents := AList.delete pdf_id (documents s)\<rparr>"
  from assms(1) have names: "map fst (pdf_names s) = map fst (vectorstores s)"
    and sub: "fst ` set (vectorstores s) \<subseteq> fst ` set (documents s)"
    by (simp_all add: manager_inv_def)
  from True names have in_names: "pdf_id \<in> fst ` set (pdf_names s)"
    by (metis set_map)
  from True sub have in_docs: "pdf_id \<in> fst ` set (documents s)" by blast
  obtain r3 where u: "update_combined_vectorstore env s3 = (r3, s')"
    using True in_names in_docs assms(2)
    by (auto simp: remove_pdf_def Let_def s3_def split: prod.splits sum.splits)
  have "map fst (pdf_names s3) = map fst (vectorstores s3)"
    using names by (simp add: s3_def delete_keys)
  moreover have "fst ` set (vectorstores s3) \<subseteq> fst ` set (documents s3)"
  proof -
    from sub have "set (map fst (vectorstores s)) \<subseteq> set (map fst (documents s))"
      by simp
    then have "set (map fst (vectorstores s3)) \<subseteq> set (map fst (documents s3))"
      unfolding s3_def by (auto simp: delete_keys simp del: set_map)
    then show ?thesis by simp
  qed
  moreover have "distinct (map fst (vectorstores s3))" "distinct (map fst (documents s3))"
    using assms(1) by (simp_all add: manager_inv_def s3_def distinct_delete)
  ultimately show ?thesis using ucv_inv[OF u] by simp
qed

lemma reachable_inv: "reachable s \<Longrightarrow> manager_inv s"
  by (induction rule: reachable.induct)
     (auto intro: manager_inv_init process_pdf_inv remove_pdf_inv)

section \<open>The combined store while a PDF is registered\<close>

lemma map_ran_update: "AList.map_ran f (AList.update k v al) = AList.update k (f k v) (AList.map_ran f al)"
  by (induction al) auto

lemma map_ran_delete: "AList.map_ran f (AList.delete k al) = AList.delete k (AList.map_ran f al)"
  by (induction al) auto

lemma ucv_index_inv:
  assumes "update_combined_vectorstore env s = (Inr u, s')"
    and "documents s = AList.map_ran (\<lambda>k. docstore) (vectorstores s)"
    and "map fst (pdf_names s) = map fst (vectorstores s)"
  shows "index_inv s'"
proof -
  note f = ucv_fields[OF assms(1)]
  have "combined_vectorstore s' =
          Some (if length (vectorstores s) = 1 then snd (hd (vectorstores s))
                else FAISS (concat (map snd (documents s))))" if ne: "vectorstores s \<noteq> []"
  proof (cases "length (vectorstores s) = 1")
    case True
    with ucv_single[OF assms(1)] show ?thesis by simp
  next
    case False
    with ne have "2 \<le> length (vectorstores s)"
      by (cases "vectorstores s") (auto simp: Suc_le_eq)
    with ucv_many[OF assms(1)] False show ?thesis by simp
  qed
  with f assms(2,3) show ?thesis by (simp add: index_inv_def)
qed

lemma completed_run_inv: "completed_run s \<Longrightarrow> index_inv s"
proof (induction rule: completed_run.induct)
  case completed_init
  show ?case by (simp add: index_inv_def init_def)
next
  case (completed_process s env pdf_id file_content file_name r s')
  from completed_process(2) obtain pages s2 u where
    u: "update_combined_vectorstore env s2 = (Inr u, s')"
    and s2: "s2 = s\<lparr>documents := AList.update pdf_id
                (split_documents env 1000 200 (map (stamp file_name pdf_id) pages)) (documents s),
             vectorstores := AList.update pdf_id
                (FAISS (split_documents env 1000 200 (map (stamp file_name pdf_id) pages))) (vectorstores s),
             pdf_names := AList.update pdf_id file_name (pdf_names s)\<rparr>"
    by (auto simp: process_pdf_def Let_def from_documents_def
             split: sum.splits prod.splits option.splits)
  from completed_process(3) have "documents s2 = AList.map_ran (\<lambda>k. docstore) (vectorstores s2)"
    "map fst (pdf_names s2) = map fst (vectorstores s2)"
    by (simp_all add: s2 index_inv_def map_ran_update update_keys)
  with ucv_index_inv[OF u] show ?case by simp
next
  case (completed_remove s env pdf_id b s')
  show ?case
  proof (cases "pdf_id \<in> fst ` set (vectorstores s)")
    case False
    with completed_remove show ?thesis by (simp add: remove_pdf_def)
  next
    case True
    from completed_remove(3) have names: "map fst (pdf_names s) = map fst (vectorstores s)"
      by (simp add: index_inv_def)
    with True have n: "pdf_id \<in> fst ` set (pdf_names s)" by (metis set_map)
    from remove_pdf_known[OF True n, of env] completed_remove(2) obtain r where
      "update_combined_vectorstore env
            (s\<lparr>vectorstores := AList.delete pdf_id (vectorstores s),
               pdf_names := AList.delete pdf_id (pdf_names s),
               documents := AList.delete pdf_id (documents s)\<rparr>) = (r, s')"
      and "Inr b = (case r of Inl e \<Rightarrow> Inl e | Inr x \<Rightarrow> Inr True)"
      by auto
    then obtain u where
      u: "update_combined_vectorstore env
            (s\<lparr>vectorstores := AList.delete pdf_id (vectorstores s),
               pdf_names := AList.delete pdf_id (pdf_names s),
               documents := AList.delete pdf_id (documents s)\<rparr>) = (Inr u, s')"
      by (cases r) auto
    from completed_remove(3) names show ?thesis
      by (intro ucv_index_inv[OF u]) (simp_all add: index_inv_def map_ran_delete delete_keys)
  qed
qed

lemma registered_all:
  assumes "documents s = AList.map_ran (\<lambda>k. docstore) (vectorstores s)"
  shows "registered_segments s = set (concat (map snd (documents s)))"
proof -
  have "fst ` set (documents s) = fst ` set (vectorstores s)"
    by (simp add: assms dom_map_ran)
  then have "filter (\<lambda>entry. fst entry \<in> fst ` set (vectorstores s)) (documents s) = documents s"
    by (auto simp: filter_id_conv)
  then show ?thesis by (simp add: registered_segments_def)
qed

text \<open>
  As long as every call returned and a PDF is registered, the combined store indexes the
  segments of the registered PDFs and no others.
\<close>

lemma merged_index_consistent_while_registered:
  assumes "completed_run s" and "vectorstores s \<noteq> []"
  shows "merged_segments s = registered_segments s"
proof -
  from completed_run_inv[OF assms(1)] have d: "documents s = AList.map_ran (\<lambda>k. docstore) (vectorstores s)"
    and c: "combined_vectorstore s =
          Some (if length (vectorstores s) = 1 then snd (hd (vectorstores s))
                else FAISS (concat (map snd (documents s))))"
    using assms(2) by (simp_all add: index_inv_def)
  show ?thesis
  proof (cases "length (vectorstores s) = 1")
    case True
    then obtain k v where one: "vectorstores s = [(k, v)]"
      by (cases "vectorstores s") auto
    with c d show ?thesis
      by (simp add: merged_segments_def registered_all[OF d])
  next
    case False
    with c show ?thesis
      by (simp add: merged_segments_def registered_all[OF d])
  qed
qed

section \<open>The concrete runs, evaluated\<close>

lemma env0_simps:
  "loader_load env0 [] = Inl (Exception ''EOF marker not found'')"
  "loader_load env0 [1] = Inr [\<lparr>page_content = [], metadata = [(''page'', ''0'')]\<rparr>]"
  "loader_load env0 [2] = Inr [page_abc]"
  "loader_load env0 [3] = Inr [page_abc]"
  "split_text env0 n m [] = []"
  "split_text env0 1000 200 ''abc'' = [''abc'']"
  "embed_failure env0 [] = Some (Exception ''list index out of range'')"
  "embed_failure env0 (d # ds) = None"
  "retrieve env0 v k q = Inr (take k (docstore v))"
  by (simp_all add: env0_def page_abc_def)

lemma split_a: "split_documents env0 1000 200 [stamp file_name pdf_id page_abc] = [segment_abc file_name pdf_id]"
  by (simp add: split_documents_def stamp_def page_abc_def segment_abc_def env0_simps)

lemma run_a: "process_pdf env0 init ''a'' [2] ''a.pdf'' = (Inr ''a'', state_a)"
  by (simp add: process_pdf_def env0_simps split_a from_documents_def
        update_combined_vectorstore_def init_def state_a_def Let_def)

lemma run_ab: "process_pdf env0 state_a ''b'' [3] ''b.pdf'' = (Inr ''b'', state_ab)"
  by (simp add: process_pdf_def env0_simps split_a from_documents_def
        update_combined_vectorstore_def state_a_def state_ab_def Let_def)

lemma run_abc: "process_pdf env0 state_ab ''c'' [3] ''c.pdf'' = (Inr ''c'', state_abc)"
  by (simp add: process_pdf_def env0_simps split_a from_documents_def
        update_combined_vectorstore_def state_ab_def state_abc_def Let_def)

lemma run_b: "remove_pdf env0 state_ab ''a'' = (Inr True, state_b)"
  by (simp add: remove_pdf_def env0_simps from_documents_def
        update_combined_vectorstore_def state_b_def state_ab_def Let_def)


lemma run_gone: "remove_pdf env0 state_a ''a'' = (Inr True, state_gone)"
  by (simp add: remove_pdf_def env0_simps from_documents_def
        update_combined_vectorstore_def state_a_def state_gone_def Let_def)

lemma run_orphan:
  "process_pdf env0 init ''a'' [1] ''scan.pdf'' = (Inl (Exception ''list index out of range''), state_orphan)"
  by (simp add: process_pdf_def env0_simps split_documents_def stamp_def from_documents_def
        init_def state_orphan_def Let_def)

lemma run_orphan_b: "process_pdf env0 state_orphan ''b'' [3] ''b.pdf'' = (Inr ''b'', state_orphan_b)"
  by (simp add: process_pdf_def env0_simps split_a from_documents_def
        update_combined_vectorstore_def state_orphan_def state_orphan_b_def Let_def)

lemma run_ab_stale:
  "process_pdf env_small state_a ''b'' [3] ''b.pdf'' = (Inl (Exception ''out of memory''), state_ab_stale)"
  by (simp add: process_pdf_def env_small_def env0_def split_documents_def stamp_def page_abc_def
        segment_abc_def from_documents_def update_combined_vectorstore_def state_a_def
        state_ab_def state_ab_stale_def Let_def)





lemma reachable_a: "reachable state_a"
  using reachable_process[OF reachable_init run_a] .

lemma reachable_ab: "reachable state_ab"
  using reachable_process[OF reachable_a run_ab] .

lemma reachable_b: "reachable state_b"
  using reachable_remove[OF reachable_ab run_b] .

section \<open>The claims\<close>

text \<open>
  Claim C1: after every sequence of \<open>process_pdf\<close> and \<open>remove_pdf\<close> the segments in
  the combined store are those of the registered PDFs, and with no PDF registered there
  is no combined store.  The code does not do this: \<open>_update_combined_vectorstore\<close> returns
  at once when \<open>vectorstores\<close> is empty and leaves \<open>combined_vectorstore\<close> as it was.
  Here one PDF is added and removed again: nothing is registered, and the combined store
  still holds the segment of the removed PDF.
\<close>

theorem merged_index_stale_after_last_removal:
  "process_pdf env0 init ''a'' [2] ''a.pdf'' = (Inr ''a'', state_a) \<and>
   remove_pdf env0 state_a ''a'' = (Inr True, state_gone) \<and>
   vectorstores state_gone = [] \<and> pdf_names state_gone = [] \<and> documents state_gone = [] \<and>
   registered_segments state_gone = {} \<and>
   combined_vectorstore state_gone = Some (FAISS [segment_abc ''a.pdf'' ''a'']) \<and>
   merged_segments state_gone = {segment_abc ''a.pdf'' ''a''} \<and>
   merged_segments state_gone \<noteq> registered_segments state_gone"
  by (simp add: run_a run_gone state_gone_def registered_segments_def merged_segments_def)

text \<open>
  Claim C2: with no PDF registered, also after every PDF was removed, \<open>get_response\<close>
  returns the message that no PDF has been uploaded.  After the run of C1 no PDF is
  listed, and \<open>get_response\<close> retrieves from the store left behind, calls the language
  model and returns its answer instead of the message.
\<close>

theorem get_response_after_last_removal:
  "process_pdf env0 init ''a'' [2] ''a.pdf'' = (Inr ''a'', state_a) \<and>
   remove_pdf env0 state_a ''a'' = (Inr True, state_gone) \<and>
   list_pdfs state_gone = [] \<and>
   fst (get_response env0 llm0 state_gone ''what is abc?'') = Inr ''abc is the answer'' \<and>
   fst (get_response env0 llm0 state_gone ''what is abc?'') \<noteq> Inr no_pdfs_message \<and>
   snd (get_response env0 llm0 state_gone ''what is abc?'') =
     [Retrieve (FAISS [segment_abc ''a.pdf'' ''a'']) 5 ''what is abc?'',
      Generate (prompt_format env0 [segment_abc ''a.pdf'' ''a''] ''what is abc?'')]"
  by (simp add: run_a run_gone state_gone_def list_pdfs_def get_response_def
        get_combined_vectorstore_def env0_simps llm0_def no_pdfs_message_def Let_def)

text \<open>
  Claim C3: in every state of the manager with exactly one registered PDF, the combined
  store is that PDF's own store, so a query for the \<open>k\<close> nearest segments against the
  combined store gives what the same query gives against the PDF's store.
\<close>

theorem single_document_alias:
  assumes "reachable s" and "length (vectorstores s) = 1"
    and "map_of (vectorstores s) pdf_id = Some vectorstore"
  shows "get_combined_vectorstore s = Some vectorstore \<and>
         map_option (\<lambda>merged. retrieve env merged k query) (get_combined_vectorstore s) =
           Some (retrieve env vectorstore k query)"
proof -
  from assms(2) obtain i v where one: "vectorstores s = [(i, v)]"
    by (cases "vectorstores s") auto
  with assms(3) have "v = vectorstore" by (simp split: if_splits)
  moreover from reachable_inv[OF assms(1)] assms(2) one
  have "combined_vectorstore s = Some v" by (simp add: manager_inv_def)
  ultimately show ?thesis by (simp add: get_combined_vectorstore_def)
qed

text \<open>
  The state after adding two PDFs and removing the first has one registered PDF.
\<close>

theorem single_document_alias_witness:
  "reachable state_b \<and> length (vectorstores state_b) = 1 \<and>
   map_of (vectorstores state_b) ''b'' = Some (FAISS [segment_abc ''b.pdf'' ''b'']) \<and>
   get_combined_vectorstore state_b = Some (FAISS [segment_abc ''b.pdf'' ''b'']) \<and>
   map_option (\<lambda>merged. retrieve env0 merged 5 ''abc?'') (get_combined_vectorstore state_b) =
     Some (retrieve env0 (FAISS [segment_abc ''b.pdf'' ''b'']) 5 ''abc?'')"
proof -
  have l: "length (vectorstores state_b) = 1"
    and m: "map_of (vectorstores state_b) ''b'' = Some (FAISS [segment_abc ''b.pdf'' ''b''])"
    by (simp_all add: state_b_def)
  from single_document_alias[OF reachable_b l m, of env0 5 "''abc?''"] reachable_b l m
  show ?thesis by simp
qed




text \<open>
  Claim C5: \<open>remove_pdf\<close> with an id that is not registered returns \<open>False\<close> and leaves
  the whole manager as it is.  With a registered id, in a state the manager can be in, it
  deletes the id's entries of \<open>vectorstores\<close>, \<open>pdf_names\<close> and \<open>documents\<close> and nothing
  else of them, and returns \<open>True\<close>; the only other outcome is the exception of the
  library when building the combined index over the remaining segments fails, which
  needs two or more remaining PDFs.
\<close>

theorem remove_pdf_unknown_and_known:
  "(pdf_id \<notin> fst ` set (vectorstores s) \<longrightarrow> remove_pdf env s pdf_id = (Inr False, s)) \<and>
   (reachable s \<and> pdf_id \<in> fst ` set (vectorstores s) \<longrightarrow>
      vectorstores (snd (remove_pdf env s pdf_id)) = AList.delete pdf_id (vectorstores s) \<and>
      pdf_names (snd (remove_pdf env s pdf_id)) = AList.delete pdf_id (pdf_names s) \<and>
      documents (snd (remove_pdf env s pdf_id)) = AList.delete pdf_id (documents s) \<and>
      map_of (vectorstores (snd (remove_pdf env s pdf_id))) pdf_id = None \<and>
      map_of (pdf_names (snd (remove_pdf env s pdf_id))) pdf_id = None \<and>
      map_of (documents (snd (remove_pdf env s pdf_id))) pdf_id = None \<and>
      (fst (remove_pdf env s pdf_id) = Inr True \<or>
       (\<exists>e. fst (remove_pdf env s pdf_id) = Inl e \<and>
            embed_failure env (concat (map snd (AList.delete pdf_id (documents s)))) = Some e \<and>
            2 \<le> length (AList.delete pdf_id (vectorstores s)))) \<and>
      (embed_failure env (concat (map snd (AList.delete pdf_id (documents s)))) = None \<longrightarrow>
         fst (remove_pdf env s pdf_id) = Inr True))"
proof (intro conjI impI)
  assume "pdf_id \<notin> fst ` set (vectorstores s)"
  then show "remove_pdf env s pdf_id = (Inr False, s)" by (simp add: remove_pdf_def)
next
  assume a: "reachable s \<and> pdf_id \<in> fst ` set (vectorstores s)"
  then have "map fst (pdf_names s) = map fst (vectorstores s)"
    using reachable_inv by (simp add: manager_inv_def)
  with a have n: "pdf_id \<in> fst ` set (pdf_names s)" by (metis set_map)
  from a have v: "pdf_id \<in> fst ` set (vectorstores s)" by simp
  from remove_pdf_known[OF v n, of env] obtain u where
    u: "update_combined_vectorstore env
            (s\<lparr>vectorstores := AList.delete pdf_id (vectorstores s),
               pdf_names := AList.delete pdf_id (pdf_names s),
               documents := AList.delete pdf_id (documents s)\<rparr>) = (u, snd (remove_pdf env s pdf_id))"
    and r: "fst (remove_pdf env s pdf_id) = (case u of Inl e \<Rightarrow> Inl e | Inr x \<Rightarrow> Inr True)"
    by blast
  from ucv_fields[OF u]
  show f1: "vectorstores (snd (remove_pdf env s pdf_id)) = AList.delete pdf_id (vectorstores s)"
    and f2: "pdf_names (snd (remove_pdf env s pdf_id)) = AList.delete pdf_id (pdf_names s)"
    and f3: "documents (snd (remove_pdf env s pdf_id)) = AList.delete pdf_id (documents s)"
    by simp_all
  show "map_of (vectorstores (snd (remove_pdf env s pdf_id))) pdf_id = None"
    "map_of (pdf_names (snd (remove_pdf env s pdf_id))) pdf_id = None"
    "map_of (documents (snd (remove_pdf env s pdf_id))) pdf_id = None"
    by (simp_all add: f1 f2 f3 delete_conv')
  show "fst (remove_pdf env s pdf_id) = Inr True \<or>
       (\<exists>e. fst (remove_pdf env s pdf_id) = Inl e \<and>
            embed_failure env (concat (map snd (AList.delete pdf_id (documents s)))) = Some e \<and>
            2 \<le> length (AList.delete pdf_id (vectorstores s)))"
  proof (cases u)
    case (Inl e)
    with u have "update_combined_vectorstore env
            (s\<lparr>vectorstores := AList.delete pdf_id (vectorstores s),
               pdf_names := AList.delete pdf_id (pdf_names s),
               documents := AList.delete pdf_id (documents s)\<rparr>) = (Inl e, snd (remove_pdf env s pdf_id))"
      by simp
    from ucv_raise[OF this] r Inl show ?thesis by simp
  next
    case (Inr x)
    with r show ?thesis by simp
  qed
  show "fst (remove_pdf env s pdf_id) = Inr True"
    if "embed_failure env (concat (map snd (AList.delete pdf_id (documents s)))) = None"
  proof (cases u)
    case (Inl e)
    with u have "update_combined_vectorstore env
            (s\<lparr>vectorstores := AList.delete pdf_id (vectorstores s),
               pdf_names := AList.delete pdf_id (pdf_names s),
               documents := AList.delete pdf_id (documents s)\<rparr>) = (Inl e, snd (remove_pdf env s pdf_id))"
      by simp
    from ucv_raise[OF this] that show ?thesis by simp
  next
    case (Inr x)
    with r show ?thesis by simp
  qed
qed

text \<open>
  With two PDFs registered: an unknown id, and the id of the first PDF.
\<close>

theorem remove_pdf_unknown_and_known_witness:
  "''zz'' \<notin> fst ` set (vectorstores state_ab) \<and>
   remove_pdf env0 state_ab ''zz'' = (Inr False, state_ab) \<and>
   reachable state_ab \<and> ''a'' \<in> fst ` set (vectorstores state_ab) \<and>
   embed_failure env0 (concat (map snd (AList.delete ''a'' (documents state_ab)))) = None \<and>
   fst (remove_pdf env0 state_ab ''a'') = Inr True \<and>
   map_of (vectorstores (snd (remove_pdf env0 state_ab ''a''))) ''a'' = None \<and>
   map_of (documents (snd (remove_pdf env0 state_ab ''a''))) ''a'' = None"
proof -
  have h1: "''zz'' \<notin> fst ` set (vectorstores state_ab)"
    and h2: "''a'' \<in> fst ` set (vectorstores state_ab)"
    and h3: "embed_failure env0 (concat (map snd (AList.delete ''a'' (documents state_ab)))) = None"
    by (simp_all add: state_ab_def env0_simps)
  from remove_pdf_unknown_and_known[of "''zz''" state_ab env0]
       remove_pdf_unknown_and_known[of "''a''" state_ab env0] h1 h2 h3 reachable_ab
  show ?thesis by blast
qed

text \<open>
  Claim C6 says that a \<open>process_pdf\<close> that raises leaves \<open>vectorstores\<close>, \<open>pdf_names\<close>,
  \<open>documents\<close> and the combined store as they were.  \<open>process_pdf\<close> assigns
  \<open>self.documents[pdf_id]\<close> before it builds the index, and nothing undoes an assignment
  when a later step raises.  A PDF whose page has no text gives no segment, building the
  index over no segment raises, and \<open>documents\<close> keeps the new id.
\<close>

theorem failed_ingestion_keeps_segments:
  "process_pdf env0 init ''a'' [1] ''scan.pdf'' =
     (Inl (Exception ''list index out of range''), state_orphan) \<and>
   documents init = [] \<and> documents state_orphan = [(''a'', [])] \<and> state_orphan \<noteq> init"
  using run_orphan by (simp add: state_orphan_def init_def)

text \<open>
  Claim C6, as the code has it: a \<open>process_pdf\<close> that raises raises the exception of the
  step that failed, and leaves the combined store and every entry of \<open>vectorstores\<close>,
  \<open>pdf_names\<close> and \<open>documents\<close> under any other id as they were.  If loading failed, the
  whole manager is unchanged.  If building the index of the PDF failed, \<open>vectorstores\<close> and
  \<open>pdf_names\<close> are unchanged.  Otherwise the exception is that of rebuilding the combined
  index, over two or more registered PDFs.
\<close>

theorem process_pdf_failure_state:
  assumes "process_pdf env s pdf_id file_content file_name = (Inl e, s')"
  shows "combined_vectorstore s' = combined_vectorstore s \<and>
         (\<forall>k. k \<noteq> pdf_id \<longrightarrow>
            map_of (vectorstores s') k = map_of (vectorstores s) k \<and>
            map_of (pdf_names s') k = map_of (pdf_names s) k \<and>
            map_of (documents s') k = map_of (documents s) k) \<and>
         (\<forall>e'. loader_load env file_content = Inl e' \<longrightarrow> e = e' \<and> s' = s) \<and>
         (\<forall>pages e'. loader_load env file_content = Inr pages \<and>
            embed_failure env (split_documents env 1000 200 (map (stamp file_name pdf_id) pages)) = Some e' \<longrightarrow>
              e = e' \<and> vectorstores s' = vectorstores s \<and> pdf_names s' = pdf_names s) \<and>
         (\<forall>pages. loader_load env file_content = Inr pages \<and>
            embed_failure env (split_documents env 1000 200 (map (stamp file_name pdf_id) pages)) = None \<longrightarrow>
              embed_failure env (concat (map snd (documents s'))) = Some e \<and>
              2 \<le> length (vectorstores s'))"
  using process_pdf_raises_cases[OF assms]
  by (elim disjE exE conjE) (simp_all add: update_conv')

text \<open>
  An empty file with one PDF registered, the scanned PDF on the empty manager, and a
  second PDF when the index over two segments cannot be built.
\<close>

theorem process_pdf_failure_state_witness:
  "process_pdf env0 state_a ''b'' [] ''b.pdf'' = (Inl (Exception ''EOF marker not found''), state_a) \<and>
   loader_load env0 [] = Inl (Exception ''EOF marker not found'') \<and>
   process_pdf env0 init ''a'' [1] ''scan.pdf'' =
     (Inl (Exception ''list index out of range''), state_orphan) \<and>
   loader_load env0 [1] = Inr [\<lparr>page_content = [], metadata = [(''page'', ''0'')]\<rparr>] \<and>
   embed_failure env0 (split_documents env0 1000 200
      (map (stamp ''scan.pdf'' ''a'') [\<lparr>page_content = [], metadata = [(''page'', ''0'')]\<rparr>])) =
     Some (Exception ''list index out of range'') \<and>
   combined_vectorstore state_orphan = combined_vectorstore init \<and>
   vectorstores state_orphan = vectorstores init \<and> pdf_names state_orphan = pdf_names init \<and>
   process_pdf env_small state_a ''b'' [3] ''b.pdf'' = (Inl (Exception ''out of memory''), state_ab_stale) \<and>
   loader_load env_small [3] = Inr [page_abc] \<and>
   embed_failure env_small (split_documents env_small 1000 200 (map (stamp ''b.pdf'' ''b'') [page_abc])) = None \<and>
   ''a'' \<noteq> ''b'' \<and>
   combined_vectorstore state_ab_stale = combined_vectorstore state_a \<and>
   map_of (vectorstores state_ab_stale) ''a'' = map_of (vectorstores state_a) ''a'' \<and>
   map_of (pdf_names state_ab_stale) ''a'' = map_of (pdf_names state_a) ''a'' \<and>
   map_of (documents state_ab_stale) ''a'' = map_of (documents state_a) ''a'' \<and>
   embed_failure env_small (concat (map snd (documents state_ab_stale))) = Some (Exception ''out of memory'') \<and>
   2 \<le> length (vectorstores state_ab_stale)"
proof -
  have r: "process_pdf env0 state_a ''b'' [] ''b.pdf'' = (Inl (Exception ''EOF marker not found''), state_a)"
    by (simp add: process_pdf_def env0_simps)
  have l1: "loader_load env0 [] = Inl (Exception ''EOF marker not found'')"
    and l2: "loader_load env0 [1] = Inr [\<lparr>page_content = [], metadata = [(''page'', ''0'')]\<rparr>]"
    and l3: "loader_load env_small [3] = Inr [page_abc]"
    by (simp_all add: env0_simps env_small_def)
  have e2: "embed_failure env0 (split_documents env0 1000 200
      (map (stamp ''scan.pdf'' ''a'') [\<lparr>page_content = [], metadata = [(''page'', ''0'')]\<rparr>])) =
     Some (Exception ''list index out of range'')"
    by (simp add: split_documents_def stamp_def env0_simps)
  have e3: "embed_failure env_small
      (split_documents env_small 1000 200 (map (stamp ''b.pdf'' ''b'') [page_abc])) = None"
    by (simp add: split_documents_def stamp_def env_small_def env0_def page_abc_def)
  have ne: "''a'' \<noteq> ''b''" by simp
  note t1 = process_pdf_failure_state[OF r]
  note t2 = process_pdf_failure_state[OF run_orphan]
  note t3 = process_pdf_failure_state[OF run_ab_stale]
  note c1 = t1[THEN conjunct2, THEN conjunct2, THEN conjunct1, rule_format, OF l1]
  note c2a = t2[THEN conjunct1]
  note c2 = t2[THEN conjunct2, THEN conjunct2, THEN conjunct2, THEN conjunct1, rule_format,
      OF conjI[OF l2 e2]]
  note c3a = t3[THEN conjunct1]
  note c3b = t3[THEN conjunct2, THEN conjunct1, rule_format, OF ne]
  note c3c = t3[THEN conjunct2, THEN conjunct2, THEN conjunct2, THEN conjunct2, rule_format,
      OF conjI[OF l3 e3]]
  note c = c2a c2[THEN conjunct2, THEN conjunct1] c2[THEN conjunct2, THEN conjunct2]
    c3a c3b[THEN conjunct1] c3b[THEN conjunct2, THEN conjunct1] c3b[THEN conjunct2, THEN conjunct2]
    c3c[THEN conjunct1] c3c[THEN conjunct2]
  show ?thesis by (intro conjI) (rule r l1 l2 l3 e2 e3 ne c run_orphan run_ab_stale)+
qed

text \<open>
  Claim C7 says that two ingestions of the same bytes give segments with the same
  boundaries and the same metadata.  Every call of \<open>process_pdf\<close> draws a new id and
  writes it into the metadata: the same file under the same name, ingested twice from the
  same state, gives the same text with different metadata.
\<close>

theorem chunking_differs_in_pdf_id:
  "loader_load env0 [2] = Inr [page_abc] \<and>
   fst (process_pdf env0 init ''a'' [2] ''a.pdf'') = Inr ''a'' \<and>
   fst (process_pdf env0 init ''b'' [2] ''a.pdf'') = Inr ''b'' \<and>
   documents (snd (process_pdf env0 init ''a'' [2] ''a.pdf'')) = [(''a'', [segment_abc ''a.pdf'' ''a''])] \<and>
   documents (snd (process_pdf env0 init ''b'' [2] ''a.pdf'')) = [(''b'', [segment_abc ''a.pdf'' ''b''])] \<and>
   page_content (segment_abc ''a.pdf'' ''a'') = page_content (segment_abc ''a.pdf'' ''b'') \<and>
   metadata (segment_abc ''a.pdf'' ''a'') \<noteq> metadata (segment_abc ''a.pdf'' ''b'')"
  by (simp add: process_pdf_def env0_simps split_a from_documents_def
        update_combined_vectorstore_def init_def Let_def segment_abc_def)

text \<open>
  Claim C7, as the code has it: two ingestions of the same bytes under the same name,
  with the same libraries and from any two states, store segments with the same texts in
  the same order and the same metadata apart from the entry \<open>pdf_id\<close>, which is the id
  of each ingestion; with the same id the stored segments are the same.
\<close>

theorem chunking_two_runs:
  assumes "loader_load env file_content = Inr pages"
  shows "map_of (documents (snd (process_pdf env s1 id1 file_content file_name))) id1 =
           Some (split_documents env 1000 200 (map (stamp file_name id1) pages)) \<and>
         map_of (documents (snd (process_pdf env s2 id2 file_content file_name))) id2 =
           Some (split_documents env 1000 200 (map (stamp file_name id2) pages)) \<and>
         map_of (documents (snd (process_pdf env s2 id1 file_content file_name))) id1 =
           map_of (documents (snd (process_pdf env s1 id1 file_content file_name))) id1 \<and>
         map page_content (split_documents env 1000 200 (map (stamp file_name id1) pages)) =
           map page_content (split_documents env 1000 200 (map (stamp file_name id2) pages)) \<and>
         map (\<lambda>d. AList.delete ''pdf_id'' (metadata d))
             (split_documents env 1000 200 (map (stamp file_name id1) pages)) =
           map (\<lambda>d. AList.delete ''pdf_id'' (metadata d))
             (split_documents env 1000 200 (map (stamp file_name id2) pages)) \<and>
         map (\<lambda>d. map_of (metadata d) ''pdf_id'')
             (split_documents env 1000 200 (map (stamp file_name id1) pages)) =
           map (\<lambda>d. Some id1)
             (split_documents env 1000 200 (map (stamp file_name id1) pages))"
proof -
  have "map_of (documents (snd (process_pdf env s id file_content file_name))) id =
      Some (split_documents env 1000 200 (map (stamp file_name id) pages))" for s id
    by (simp add: process_pdf_fields[OF assms] update_conv')
  moreover have "map page_content (split_documents env 1000 200 (map (stamp file_name id1) pages)) =
      map page_content (split_documents env 1000 200 (map (stamp file_name id2) pages))"
    by (simp only: split_documents_content)
  moreover have "map (\<lambda>d. AList.delete ''pdf_id'' (metadata d))
        (split_documents env 1000 200 (map (stamp file_name id1) pages)) =
      map (\<lambda>d. AList.delete ''pdf_id'' (metadata d))
        (split_documents env 1000 200 (map (stamp file_name id2) pages))"
    by (simp only: split_documents_rest)
  moreover have "map (\<lambda>d. map_of (metadata d) ''pdf_id'')
        (split_documents env 1000 200 (map (stamp file_name id1) pages)) =
      map (\<lambda>d. Some id1) (split_documents env 1000 200 (map (stamp file_name id1) pages))"
    using split_documents_stamped[of _ env 1000 200 file_name id1 pages] by simp
  ultimately show ?thesis by simp
qed

text \<open>
  The same file ingested on the empty manager and again with one PDF registered.
\<close>

theorem chunking_two_runs_witness:
  "loader_load env0 [2] = Inr [page_abc] \<and>
   map_of (documents (snd (process_pdf env0 init ''a'' [2] ''a.pdf''))) ''a'' =
     Some [segment_abc ''a.pdf'' ''a''] \<and>
   map_of (documents (snd (process_pdf env0 state_a ''b'' [2] ''a.pdf''))) ''b'' =
     Some [segment_abc ''a.pdf'' ''b''] \<and>
   map page_content [segment_abc ''a.pdf'' ''a''] = map page_content [segment_abc ''a.pdf'' ''b''] \<and>
   map (\<lambda>d. AList.delete ''pdf_id'' (metadata d)) [segment_abc ''a.pdf'' ''a''] =
     map (\<lambda>d. AList.delete ''pdf_id'' (metadata d)) [segment_abc ''a.pdf'' ''b'']"
proof -
  have l: "loader_load env0 [2] = Inr [page_abc]" by (simp add: env0_simps)
  from chunking_two_runs[OF l, of init "''a''" "''a.pdf''" state_a "''b''"] l
  show ?thesis by (simp add: split_a)
qed

text \<open>
  Claim C8: a \<open>process_pdf\<close> that returns has returned the generated id and stored under
  it the segments that the splitter, with chunk size 1000 and overlap 200, cuts from the
  pages; every stored segment has the file name as \<open>source\<close> and the generated id as
  \<open>pdf_id\<close> in its metadata, and its text is a chunk of a page.
\<close>

theorem process_pdf_segments:
  assumes "process_pdf env s pdf_id file_content file_name = (Inr r, s')"
  shows "r = pdf_id \<and>
         (\<exists>pages. loader_load env file_content = Inr pages \<and>
            map_of (documents s') pdf_id =
              Some (split_documents env 1000 200 (map (stamp file_name pdf_id) pages)) \<and>
            (\<forall>seg \<in> set (split_documents env 1000 200 (map (stamp file_name pdf_id) pages)).
               map_of (metadata seg) ''source'' = Some file_name \<and>
               map_of (metadata seg) ''pdf_id'' = Some pdf_id \<and>
               (\<exists>page \<in> set pages.
                  page_content seg \<in> set (split_text env 1000 200 (page_content page)))))"
proof -
  from process_pdf_success[OF assms] obtain pages where
    l: "loader_load env file_content = Inr pages" and r: "r = pdf_id"
    and d: "documents s' = AList.update pdf_id
              (split_documents env 1000 200 (map (stamp file_name pdf_id) pages)) (documents s)"
    by blast
  from d have "map_of (documents s') pdf_id =
      Some (split_documents env 1000 200 (map (stamp file_name pdf_id) pages))"
    by (simp add: update_conv')
  with l r split_documents_stamped[of _ env 1000 200 file_name pdf_id pages]
  show ?thesis by blast
qed

text \<open>
  Adding the second PDF.
\<close>

theorem process_pdf_segments_witness:
  "process_pdf env0 state_a ''b'' [3] ''b.pdf'' = (Inr ''b'', state_ab) \<and>
   loader_load env0 [3] = Inr [page_abc] \<and>
   map_of (documents state_ab) ''b'' =
     Some (split_documents env0 1000 200 (map (stamp ''b.pdf'' ''b'') [page_abc])) \<and>
   split_documents env0 1000 200 (map (stamp ''b.pdf'' ''b'') [page_abc]) = [segment_abc ''b.pdf'' ''b''] \<and>
   map_of (metadata (segment_abc ''b.pdf'' ''b'')) ''source'' = Some ''b.pdf'' \<and>
   map_of (metadata (segment_abc ''b.pdf'' ''b'')) ''pdf_id'' = Some ''b''"
proof -
  from process_pdf_segments[OF run_ab] run_ab show ?thesis
    by (simp add: env0_simps split_a segment_abc_def)
qed

text \<open>
  Claim C9: when there is a combined store and retrieval succeeds, \<open>get_response\<close> asks
  the retriever once, for the 5 nearest segments of the combined store, calls the
  language model once, on the prompt made of the retrieved segments and the query, and
  its result is the result of that call: the text of the answer as it is, or the
  exception, with no second call.
\<close>

theorem get_response_live_index:
  assumes "get_combined_vectorstore s = Some vectorstore"
    and "retrieve env vectorstore 5 query = Inr context"
  shows "fst (get_response env llm s query) = llm (prompt_format env context query) \<and>
         snd (get_response env llm s query) =
           [Retrieve vectorstore 5 query, Generate (prompt_format env context query)] \<and>
         length (filter is_Generate (snd (get_response env llm s query))) = 1"
  using assms by (simp add: get_response_def Let_def split: sum.splits)

text \<open>
  Two PDFs registered, with a language model that answers and with one that fails.
\<close>

theorem get_response_live_index_witness:
  "get_combined_vectorstore state_ab = Some (FAISS [segment_abc ''a.pdf'' ''a'', segment_abc ''b.pdf'' ''b'']) \<and>
   retrieve env0 (FAISS [segment_abc ''a.pdf'' ''a'', segment_abc ''b.pdf'' ''b'']) 5 ''what is abc?'' =
     Inr [segment_abc ''a.pdf'' ''a'', segment_abc ''b.pdf'' ''b''] \<and>
   fst (get_response env0 llm0 state_ab ''what is abc?'') = Inr ''abc is the answer'' \<and>
   fst (get_response env0 llm_down state_ab ''what is abc?'') = Inl (Exception ''rate limit reached'') \<and>
   snd (get_response env0 llm_down state_ab ''what is abc?'') =
     [Retrieve (FAISS [segment_abc ''a.pdf'' ''a'', segment_abc ''b.pdf'' ''b'']) 5 ''what is abc?'',
      Generate (prompt_format env0 [segment_abc ''a.pdf'' ''a'', segment_abc ''b.pdf'' ''b''] ''what is abc?'')]"
proof -
  have h1: "get_combined_vectorstore state_ab =
      Some (FAISS [segment_abc ''a.pdf'' ''a'', segment_abc ''b.pdf'' ''b''])"
    by (simp add: get_combined_vectorstore_def state_ab_def)
  have h2: "retrieve env0 (FAISS [segment_abc ''a.pdf'' ''a'', segment_abc ''b.pdf'' ''b'']) 5 ''what is abc?'' =
     Inr [segment_abc ''a.pdf'' ''a'', segment_abc ''b.pdf'' ''b'']"
    by (simp add: env0_simps)
  from get_response_live_index[OF h1 h2, of llm0] get_response_live_index[OF h1 h2, of llm_down] h1 h2
  show ?thesis by (simp add: llm0_def llm_down_def)
qed

text \<open>
  Claim C10 says that after every registry operation that returns, \<open>vectorstores\<close>,
  \<open>pdf_names\<close> and \<open>documents\<close> have the same keys.  After the failed ingestion of C6
  a second ingestion returns, and \<open>documents\<close> has the id of the failed one, which the
  other two dictionaries do not have.
\<close>

theorem orphan_segments_after_failed_ingestion:
  "process_pdf env0 init ''a'' [1] ''scan.pdf'' =
     (Inl (Exception ''list index out of range''), state_orphan) \<and>
   process_pdf env0 state_orphan ''b'' [3] ''b.pdf'' = (Inr ''b'', state_orphan_b) \<and>
   map fst (vectorstores state_orphan_b) = [''b''] \<and>
   map fst (pdf_names state_orphan_b) = [''b''] \<and>
   map fst (documents state_orphan_b) = [''a'', ''b''] \<and>
   \<not> keys_agree state_orphan_b"
  using run_orphan run_orphan_b by (simp add: state_orphan_b_def keys_agree_def)

text \<open>
  Claim C10, as the code has it: the three dictionaries have the same keys at the start,
  and a \<open>process_pdf\<close> or \<open>remove_pdf\<close> that returns keeps them so.  In every state the
  manager can be in, also after calls that raised, \<open>vectorstores\<close> and \<open>pdf_names\<close> have
  the same keys and each of them is a key of \<open>documents\<close>.
\<close>

theorem keys_agree_preserved:
  "keys_agree init \<and>
   (keys_agree s \<and> fst (process_pdf env s pdf_id file_content file_name) = Inr r \<longrightarrow>
      keys_agree (snd (process_pdf env s pdf_id file_content file_name))) \<and>
   (keys_agree s \<and> fst (remove_pdf env s pdf_id) = Inr b \<longrightarrow>
      keys_agree (snd (remove_pdf env s pdf_id))) \<and>
   (reachable s \<longrightarrow>
      fst ` set (vectorstores s) = fst ` set (pdf_names s) \<and>
      fst ` set (vectorstores s) \<subseteq> fst ` set (documents s))"
proof (intro conjI impI)
  show "keys_agree init" by (simp add: keys_agree_def init_def)
next
  assume a: "keys_agree s \<and> fst (process_pdf env s pdf_id file_content file_name) = Inr r"
  then have "process_pdf env s pdf_id file_content file_name =
      (Inr r, snd (process_pdf env s pdf_id file_content file_name))"
    by (metis prod.collapse)
  from process_pdf_success[OF this] obtain pages where
    "documents (snd (process_pdf env s pdf_id file_content file_name)) = AList.update pdf_id
        (split_documents env 1000 200 (map (stamp file_name pdf_id) pages)) (documents s)"
    "vectorstores (snd (process_pdf env s pdf_id file_content file_name)) = AList.update pdf_id
        (FAISS (split_documents env 1000 200 (map (stamp file_name pdf_id) pages))) (vectorstores s)"
    "pdf_names (snd (process_pdf env s pdf_id file_content file_name)) =
        AList.update pdf_id file_name (pdf_names s)"
    by blast
  with a show "keys_agree (snd (process_pdf env s pdf_id file_content file_name))"
    by (simp add: keys_agree_def dom_update)
next
  assume a: "keys_agree s \<and> fst (remove_pdf env s pdf_id) = Inr b"
  show "keys_agree (snd (remove_pdf env s pdf_id))"
  proof (cases "pdf_id \<in> fst ` set (vectorstores s)")
    case False
    with a show ?thesis by (simp add: remove_pdf_def)
  next
    case True
    with a have n: "pdf_id \<in> fst ` set (pdf_names s)" by (simp add: keys_agree_def)
    from remove_pdf_known[OF True n, of env] obtain u where
      "update_combined_vectorstore env
            (s\<lparr>vectorstores := AList.delete pdf_id (vectorstores s),
               pdf_names := AList.delete pdf_id (pdf_names s),
               documents := AList.delete pdf_id (documents s)\<rparr>) = (u, snd (remove_pdf env s pdf_id))"
      by blast
    from ucv_fields[OF this] a show ?thesis
      by (simp add: keys_agree_def keys_delete)
  qed
next
  assume "reachable s"
  from reachable_inv[OF this]
  have "map fst (pdf_names s) = map fst (vectorstores s)"
    and "fst ` set (vectorstores s) \<subseteq> fst ` set (documents s)"
    by (simp_all add: manager_inv_def)
  then show "fst ` set (vectorstores s) = fst ` set (pdf_names s)"
    "fst ` set (vectorstores s) \<subseteq> fst ` set (documents s)"
    by (metis set_map, simp)
qed

text \<open>
  Adding a second PDF, removing the first of two, and the state after the failed ingestion.
\<close>

theorem keys_agree_preserved_witness:
  "keys_agree state_a \<and> fst (process_pdf env0 state_a ''b'' [3] ''b.pdf'') = Inr ''b'' \<and>
   keys_agree (snd (process_pdf env0 state_a ''b'' [3] ''b.pdf'')) \<and>
   keys_agree state_ab \<and> fst (remove_pdf env0 state_ab ''a'') = Inr True \<and>
   keys_agree (snd (remove_pdf env0 state_ab ''a'')) \<and>
   reachable state_orphan_b \<and>
   fst ` set (vectorstores state_orphan_b) = fst ` set (pdf_names state_orphan_b) \<and>
   fst ` set (vectorstores state_orphan_b) \<subseteq> fst ` set (documents state_orphan_b)"
proof -
  have k1: "keys_agree state_a" by (simp add: keys_agree_def state_a_def)
  have k2: "keys_agree state_ab" by (simp add: keys_agree_def state_ab_def)
  have r1: "fst (process_pdf env0 state_a ''b'' [3] ''b.pdf'') = Inr ''b''" by (simp add: run_ab)
  have r2: "fst (remove_pdf env0 state_ab ''a'') = Inr True" by (simp add: run_b)
  have re: "reachable state_orphan_b"
    using reachable_process[OF reachable_process[OF reachable_init run_orphan] run_orphan_b] .
  have c1: "keys_agree (snd (process_pdf env0 state_a ''b'' [3] ''b.pdf''))"
    using keys_agree_preserved[of state_a env0 "''b''" "[3]" "''b.pdf''" "''b''"] k1 r1 by blast
  have c2: "keys_agree (snd (remove_pdf env0 state_ab ''a''))"
    using keys_agree_preserved[of state_ab env0 "''a''" "[]" "[]" "[]" True] k2 r2 by blast
  have c3: "fst ` set (vectorstores state_orphan_b) = fst ` set (pdf_names state_orphan_b) \<and>
     fst ` set (vectorstores state_orphan_b) \<subseteq> fst ` set (documents state_orphan_b)"
    using keys_agree_preserved[of state_orphan_b env0 "[]" "[]" "[]" "[]" True] re by blast
  from c3 have c3a: "fst ` set (vectorstores state_orphan_b) = fst ` set (pdf_names state_orphan_b)"
    and c3b: "fst ` set (vectorstores state_orphan_b) \<subseteq> fst ` set (documents state_orphan_b)"
    by blast+
  show ?thesis by (intro conjI) (rule k1 r1 c1 k2 r2 c2 re c3a c3b)+
qed

end
